theory Spec2Isabelle
  imports Complex_Main
begin

section \<open>Embedding of \<open>posecare_core.py\<close>\<close>

text \<open>
  Python floats are modelled as real numbers: every comparison against a threshold is the
  comparison of the source, and arithmetic is exact. A one-dimensional numpy array is a
  list of reals, the keypoint array \<open>kps\<close> is the list of its rows. An index beyond the
  end of an array raises \<open>IndexError\<close> in the source; the model returns \<open>Inl IndexError\<close>.
\<close>

datatype error = IndexError

definition bind_err :: "error + 'a \<Rightarrow> ('a \<Rightarrow> error + 'b) \<Rightarrow> error + 'b" where
  "bind_err m f = (case m of Inl e \<Rightarrow> Inl e | Inr x \<Rightarrow> f x)"

definition getrow :: "'a list \<Rightarrow> nat \<Rightarrow> error + 'a" where
  "getrow xs i = (if i < length xs then Inr (xs ! i) else Inl IndexError)"

subsection \<open>Constants and indices\<close>

definition KEYPT_MIN_CONF :: real where "KEYPT_MIN_CONF = 35 / 100"

definition SQUAT_DOWN_MAX :: real where "SQUAT_DOWN_MAX = 120"
definition SQUAT_UP_MIN :: real where "SQUAT_UP_MIN = 165"

definition STS_SIT_MAX :: real where "STS_SIT_MAX = 120"
definition STS_STAND_MIN :: real where "STS_STAND_MIN = 165"

definition LR_UP_MAX :: real where "LR_UP_MAX = 120"
definition LR_DOWN_MIN :: real where "LR_DOWN_MIN = 165"

definition MIN_DWELL :: int where "MIN_DWELL = 3"

text \<open>The entries of the dictionary \<open>KP\<close> that the angle functions read.\<close>

definition KP_lsh :: nat where "KP_lsh = 5"
definition KP_rsh :: nat where "KP_rsh = 6"
definition KP_lhip :: nat where "KP_lhip = 11"
definition KP_rhip :: nat where "KP_rhip = 12"
definition KP_lknee :: nat where "KP_lknee = 13"
definition KP_rknee :: nat where "KP_rknee = 14"
definition KP_lank :: nat where "KP_lank = 15"
definition KP_rank :: nat where "KP_rank = 16"

subsection \<open>Math helpers\<close>

text \<open>\<open>_valid_point\<close>: the point is not \<open>None\<close>, has shape \<open>(2,)\<close> and both coordinates
  are positive.\<close>

definition valid_point :: "real list option \<Rightarrow> bool" where
  "valid_point p = (case p of None \<Rightarrow> False
     | Some v \<Rightarrow> length v = 2 \<and> v ! 0 > 0 \<and> v ! 1 > 0)"

definition vsub :: "real list \<Rightarrow> real list \<Rightarrow> real list" where
  "vsub a b = map2 (-) a b"

definition vdot :: "real list \<Rightarrow> real list \<Rightarrow> real" where
  "vdot a b = sum_list (map2 (*) a b)"

definition linalg_norm :: "real list \<Rightarrow> real" where
  "linalg_norm v = sqrt (sum_list (map (\<lambda>x. x * x) v))"

definition np_clip :: "real \<Rightarrow> real \<Rightarrow> real \<Rightarrow> real" where
  "np_clip x lo hi = min (max x lo) hi"

definition degrees :: "real \<Rightarrow> real" where
  "degrees x = x * (180 / pi)"

definition angle_3pt :: "real list option \<Rightarrow> real list option \<Rightarrow> real list option \<Rightarrow> real option" where
  "angle_3pt a b c =
     (if \<not> (valid_point a \<and> valid_point b \<and> valid_point c) then None
      else
        let v1 = vsub (the a) (the b); v2 = vsub (the c) (the b);
            n1 = linalg_norm v1; n2 = linalg_norm v2
        in if n1 < 1 / 10 ^ 6 \<or> n2 < 1 / 10 ^ 6 then None
           else Some (degrees (arccos (np_clip (vdot v1 v2 / (n1 * n2)) (- 1) 1))))"

definition knee_angles :: "real list list \<Rightarrow> error + (real option \<times> real option)" where
  "knee_angles kps =
     bind_err (getrow kps KP_lhip) (\<lambda>lhip.
     bind_err (getrow kps KP_lknee) (\<lambda>lknee.
     bind_err (getrow kps KP_lank) (\<lambda>lank.
     bind_err (getrow kps KP_rhip) (\<lambda>rhip.
     bind_err (getrow kps KP_rknee) (\<lambda>rknee.
     bind_err (getrow kps KP_rank) (\<lambda>rank.
       Inr (angle_3pt (Some lhip) (Some lknee) (Some lank),
            angle_3pt (Some rhip) (Some rknee) (Some rank))))))))"

text \<open>\<open>hip_angle_side\<close>: the side is \<open>'l'\<close> or anything else.\<close>

definition hip_angle_side :: "real list list \<Rightarrow> string \<Rightarrow> error + real option" where
  "hip_angle_side kps side =
     (if side = ''l'' then
        bind_err (getrow kps KP_lsh) (\<lambda>sh.
        bind_err (getrow kps KP_lhip) (\<lambda>hip.
        bind_err (getrow kps KP_lank) (\<lambda>ank.
          Inr (angle_3pt (Some sh) (Some hip) (Some ank)))))
      else
        bind_err (getrow kps KP_rsh) (\<lambda>sh.
        bind_err (getrow kps KP_rhip) (\<lambda>hip.
        bind_err (getrow kps KP_rank) (\<lambda>ank.
          Inr (angle_3pt (Some sh) (Some hip) (Some ank))))))"

subsection \<open>Rep counter\<close>

record RepCounter =
  exercise :: string
  reps :: int
  state :: string
  dwell :: int
  form_pct :: int

definition RepCounter_init :: RepCounter where
  "RepCounter_init = \<lparr>exercise = ''squat'', reps = 0, state = '''', dwell = 0, form_pct = 0\<rparr>"

text \<open>\<open>reset\<close>: a missing or empty exercise name leaves the exercise as it is.\<close>

definition reset :: "RepCounter \<Rightarrow> string option \<Rightarrow> RepCounter" where
  "reset rc ex =
     (let rc1 = (case ex of None \<Rightarrow> rc
                 | Some e \<Rightarrow> if e \<noteq> '''' then rc\<lparr>exercise := e\<rparr> else rc)
      in rc1\<lparr>reps := 0, state := '''', dwell := 0, form_pct := 0\<rparr>)"

subsection \<open>Form quality\<close>

definition clamp01 :: "real \<Rightarrow> real" where
  "clamp01 x = max 0 (min 1 x)"

text \<open>Python's \<open>round\<close> on a float: to the nearest integer, a tie to the even one.\<close>

definition py_round :: "real \<Rightarrow> int" where
  "py_round x =
     (let f = \<lfloor>x\<rfloor>; d = x - of_int f
      in if d < 1 / 2 then f
         else if d > 1 / 2 then f + 1
         else if even f then f else f + 1)"

definition knee_score :: "real \<Rightarrow> real" where
  "knee_score a = clamp01 ((180 - a) / (180 - 90))"

definition ext_score :: "real \<Rightarrow> real" where
  "ext_score a = clamp01 ((a - 120) / (180 - 120))"

text \<open>The scorers read \<open>kps\<close> only through the angle functions; the \<open>_angles\<close> functions are
  the bodies of the scorers after that call.\<close>

definition form_quality_squat_angles :: "real option \<times> real option \<Rightarrow> int option" where
  "form_quality_squat_angles LR =
     (case LR of
        (Some Lk, Some Rk) \<Rightarrow> Some (py_round (100 * (1 / 2 * (knee_score Lk + knee_score Rk))))
      | _ \<Rightarrow> None)"

definition form_quality_squat :: "real list list \<Rightarrow> error + int option" where
  "form_quality_squat kps = bind_err (knee_angles kps) (\<lambda>LR. Inr (form_quality_squat_angles LR))"

definition form_quality_sts_angles :: "real option \<times> real option \<Rightarrow> int option" where
  "form_quality_sts_angles LR =
     (case LR of
        (Some Lk, Some Rk) \<Rightarrow> Some (py_round (100 * (1 / 2 * (ext_score Lk + ext_score Rk))))
      | _ \<Rightarrow> None)"

definition form_quality_sts :: "real list list \<Rightarrow> error + int option" where
  "form_quality_sts kps = bind_err (knee_angles kps) (\<lambda>LR. Inr (form_quality_sts_angles LR))"

definition np_mean :: "real list \<Rightarrow> real" where
  "np_mean xs = sum_list xs / real (length xs)"

definition form_quality_legraise_angles :: "real option \<times> real option \<Rightarrow> int option" where
  "form_quality_legraise_angles LR =
     (case LR of
        (None, None) \<Rightarrow> None
      | (Lh, Rh) \<Rightarrow>
          let vals = (case Lh of None \<Rightarrow> [] | Some a \<Rightarrow> [clamp01 ((180 - a) / (180 - 90))])
                   @ (case Rh of None \<Rightarrow> [] | Some a \<Rightarrow> [clamp01 ((180 - a) / (180 - 90))])
          in if vals = [] then None else Some (py_round (100 * np_mean vals)))"

definition hip_angles :: "real list list \<Rightarrow> error + (real option \<times> real option)" where
  "hip_angles kps =
     bind_err (hip_angle_side kps ''l'') (\<lambda>Lh.
     bind_err (hip_angle_side kps ''r'') (\<lambda>Rh. Inr (Lh, Rh)))"

definition form_quality_legraise :: "real list list \<Rightarrow> error + int option" where
  "form_quality_legraise kps =
     bind_err (hip_angles kps) (\<lambda>LR. Inr (form_quality_legraise_angles LR))"

subsection \<open>Exercise logic with hysteresis\<close>

text \<open>
  Each logic function reads \<open>kps\<close> through the angle functions only: once at its head and
  once more inside the scorer it calls at its end, which computes the same angles from the
  same \<open>kps\<close>. The \<open>_angles\<close> function is the body of the logic function on those angles;
  it returns the counter that the source mutates in place.
\<close>

definition logic_squat_angles :: "real option \<times> real option \<Rightarrow> RepCounter \<Rightarrow> RepCounter" where
  "logic_squat_angles LR rc =
     (case LR of
        (Some Lk, Some Rk) \<Rightarrow>
          let down = (Lk < SQUAT_DOWN_MAX \<and> Rk < SQUAT_DOWN_MAX);
              up = (Lk > SQUAT_UP_MIN \<and> Rk > SQUAT_UP_MIN);
              rc1 =
                (if state rc = '''' then rc\<lparr>state := ''up'', dwell := 0\<rparr>
                 else if state rc = ''up'' then
                   (let rc2 = rc\<lparr>dwell := (if down then dwell rc + 1 else 0)\<rparr>
                    in if down \<and> dwell rc2 \<ge> MIN_DWELL
                       then rc2\<lparr>state := ''down'', dwell := 0\<rparr> else rc2)
                 else if state rc = ''down'' then
                   (let rc2 = rc\<lparr>dwell := (if up then dwell rc + 1 else 0)\<rparr>
                    in if up \<and> dwell rc2 \<ge> MIN_DWELL
                       then rc2\<lparr>reps := reps rc2 + 1, state := ''up'', dwell := 0\<rparr> else rc2)
                 else rc)
          in (case form_quality_squat_angles LR of
                None \<Rightarrow> rc1 | Some q \<Rightarrow> rc1\<lparr>form_pct := q\<rparr>)
      | _ \<Rightarrow> rc)"

definition logic_squat :: "real list list \<Rightarrow> RepCounter \<Rightarrow> error + RepCounter" where
  "logic_squat kps rc = bind_err (knee_angles kps) (\<lambda>LR. Inr (logic_squat_angles LR rc))"

definition logic_sts_angles :: "real option \<times> real option \<Rightarrow> RepCounter \<Rightarrow> RepCounter" where
  "logic_sts_angles LR rc =
     (case LR of
        (Some Lk, Some Rk) \<Rightarrow>
          let sit = (Lk < STS_SIT_MAX \<and> Rk < STS_SIT_MAX);
              stand = (Lk > STS_STAND_MIN \<and> Rk > STS_STAND_MIN);
              rc1 =
                (if state rc = '''' then rc\<lparr>state := ''sit'', dwell := 0\<rparr>
                 else if state rc = ''sit'' then
                   (let rc2 = rc\<lparr>dwell := (if stand then dwell rc + 1 else 0)\<rparr>
                    in if stand \<and> dwell rc2 \<ge> MIN_DWELL
                       then rc2\<lparr>reps := reps rc2 + 1, state := ''stand'', dwell := 0\<rparr> else rc2)
                 else if state rc = ''stand'' then
                   (let rc2 = rc\<lparr>dwell := (if sit then dwell rc + 1 else 0)\<rparr>
                    in if sit \<and> dwell rc2 \<ge> MIN_DWELL
                       then rc2\<lparr>state := ''sit'', dwell := 0\<rparr> else rc2)
                 else rc)
          in (case form_quality_sts_angles LR of
                None \<Rightarrow> rc1 | Some q \<Rightarrow> rc1\<lparr>form_pct := q\<rparr>)
      | _ \<Rightarrow> rc)"

definition logic_sts :: "real list list \<Rightarrow> RepCounter \<Rightarrow> error + RepCounter" where
  "logic_sts kps rc = bind_err (knee_angles kps) (\<lambda>LR. Inr (logic_sts_angles LR rc))"

text \<open>\<open>any_up\<close> and \<open>both_down\<close> start at \<open>False\<close> and \<open>True\<close>; each side that has an angle
  is or-ed into the first and and-ed into the second.\<close>

definition leg_any_up :: "real option \<times> real option \<Rightarrow> bool" where
  "leg_any_up LR =
     (let any_up = False;
          any_up = (case fst LR of None \<Rightarrow> any_up | Some a \<Rightarrow> any_up \<or> a < LR_UP_MAX);
          any_up = (case snd LR of None \<Rightarrow> any_up | Some a \<Rightarrow> any_up \<or> a < LR_UP_MAX)
      in any_up)"

definition leg_both_down :: "real option \<times> real option \<Rightarrow> bool" where
  "leg_both_down LR =
     (let both_down = True;
          both_down = (case fst LR of None \<Rightarrow> both_down | Some a \<Rightarrow> both_down \<and> a > LR_DOWN_MIN);
          both_down = (case snd LR of None \<Rightarrow> both_down | Some a \<Rightarrow> both_down \<and> a > LR_DOWN_MIN)
      in both_down)"

definition logic_leg_raise_angles :: "real option \<times> real option \<Rightarrow> RepCounter \<Rightarrow> RepCounter" where
  "logic_leg_raise_angles LR rc =
     (if fst LR = None \<and> snd LR = None then rc
      else
        let any_up = leg_any_up LR; both_down = leg_both_down LR;
            rc1 =
              (if state rc = '''' then rc\<lparr>state := ''down'', dwell := 0\<rparr>
               else if state rc = ''down'' then
                 (let rc2 = rc\<lparr>dwell := (if any_up then dwell rc + 1 else 0)\<rparr>
                  in if any_up \<and> dwell rc2 \<ge> MIN_DWELL
                     then rc2\<lparr>state := ''up'', dwell := 0\<rparr> else rc2)
               else if state rc = ''up'' then
                 (let rc2 = rc\<lparr>dwell := (if both_down then dwell rc + 1 else 0)\<rparr>
                  in if both_down \<and> dwell rc2 \<ge> MIN_DWELL
                     then rc2\<lparr>reps := reps rc2 + 1, state := ''down'', dwell := 0\<rparr> else rc2)
               else rc)
        in (case form_quality_legraise_angles LR of
              None \<Rightarrow> rc1 | Some q \<Rightarrow> rc1\<lparr>form_pct := q\<rparr>))"

definition logic_leg_raise :: "real list list \<Rightarrow> RepCounter \<Rightarrow> error + RepCounter" where
  "logic_leg_raise kps rc =
     bind_err (hip_angles kps) (\<lambda>LR. Inr (logic_leg_raise_angles LR rc))"

text \<open>A run of a logic function over the frames of a stream, one call per frame.\<close>

definition run_squat :: "(real option \<times> real option) list \<Rightarrow> RepCounter \<Rightarrow> RepCounter" where
  "run_squat frames rc = foldl (\<lambda>r LR. logic_squat_angles LR r) rc frames"

definition run_sts :: "(real option \<times> real option) list \<Rightarrow> RepCounter \<Rightarrow> RepCounter" where
  "run_sts frames rc = foldl (\<lambda>r LR. logic_sts_angles LR r) rc frames"

definition run_leg_raise :: "(real option \<times> real option) list \<Rightarrow> RepCounter \<Rightarrow> RepCounter" where
  "run_leg_raise frames rc = foldl (\<lambda>r LR. logic_leg_raise_angles LR r) rc frames"

text \<open>Both legs at the same angle.\<close>

definition both :: "real \<Rightarrow> real option \<times> real option" where
  "both a = (Some a, Some a)"

subsection \<open>Smoothing: \<open>EMAStabilizer\<close>\<close>

record EMAStabilizer =
  alpha_fast :: real
  alpha_slow :: real
  ema_state :: "real list list option"

text \<open>The constructor with its default arguments.\<close>

definition EMAStabilizer_init :: EMAStabilizer where
  "EMAStabilizer_init = \<lparr>alpha_fast = 45 / 100, alpha_slow = 15 / 100, ema_state = None\<rparr>"

definition sentinel :: "real list" where
  "sentinel = [- 1, - 1]"

definition vadd :: "real list \<Rightarrow> real list \<Rightarrow> real list" where
  "vadd a b = map2 (+) a b"

definition vscale :: "real \<Rightarrow> real list \<Rightarrow> real list" where
  "vscale k a = map (\<lambda>x. k * x) a"

text \<open>\<open>kps.shape == (17, 2)\<close> on the list of rows.\<close>

definition shape_17_2 :: "real list list \<Rightarrow> bool" where
  "shape_17_2 kps = (length kps = 17 \<and> list_all (\<lambda>row. length row = 2) kps)"

text \<open>\<open>kps[~mask_good] = -1.0\<close>: every row whose confidence is below \<open>KEYPT_MIN_CONF\<close> is
  filled with \<open>-1\<close>. The boolean mask has the length of \<open>conf\<close>; numpy raises \<open>IndexError\<close>
  when that differs from the number of rows, which \<open>update\<close> below checks before masking.\<close>

definition mask_low :: "real list list \<Rightarrow> real list \<Rightarrow> real list list" where
  "mask_low kps conf =
     map2 (\<lambda>row c. if c \<ge> KEYPT_MIN_CONF then row else map (\<lambda>_. - 1) row) kps conf"

text \<open>One round of the loop body, on the current row \<open>kps[i]\<close> and \<open>prev = self.state[i]\<close>.\<close>

definition ema_joint :: "real \<Rightarrow> real \<Rightarrow> real list \<Rightarrow> real list \<Rightarrow> real list" where
  "ema_joint af as cur prev =
     (if cur ! 0 \<le> 0 \<or> cur ! 1 \<le> 0 then sentinel
      else if prev ! 0 \<le> 0 \<or> prev ! 1 \<le> 0 then cur
      else
        let dist = linalg_norm (vsub cur prev);
            alpha = (if dist > 6 then af else as)
        in vadd (vscale (1 - alpha) prev) (vscale alpha cur))"

text \<open>The loop \<open>for i in range(17)\<close> over the copy \<open>out\<close> of the state; \<open>st\<close> is the state
  itself, which the loop only reads. A state with fewer rows than the index raises.\<close>

fun ema_loop ::
  "real \<Rightarrow> real \<Rightarrow> real list list \<Rightarrow> real list list \<Rightarrow> nat list \<Rightarrow> real list list
     \<Rightarrow> error + real list list" where
  "ema_loop af as kps st [] out = Inr out"
| "ema_loop af as kps st (i # is) out =
     (if i < length kps \<and> i < length st
      then ema_loop af as kps st is (out[i := ema_joint af as (kps ! i) (st ! i)])
      else Inl IndexError)"

text \<open>\<open>update\<close> returns the value of the call (\<open>None\<close> or the smoothed array) and the
  stabilizer after it.\<close>

definition update ::
  "EMAStabilizer \<Rightarrow> real list list option \<Rightarrow> real list option
     \<Rightarrow> error + (real list list option \<times> EMAStabilizer)" where
  "update s kps conf =
     (case kps of None \<Rightarrow> Inr (None, s) | Some k \<Rightarrow>
      case conf of None \<Rightarrow> Inr (None, s) | Some c \<Rightarrow>
        if \<not> shape_17_2 k \<or> length c < 17 then Inr (None, s)
        else if length c \<noteq> length k then Inl IndexError
        else
          let k1 = mask_low k c
          in (case ema_state s of
                None \<Rightarrow> Inr (Some k1, s\<lparr>ema_state := Some k1\<rparr>)
              | Some st \<Rightarrow>
                  bind_err (ema_loop (alpha_fast s) (alpha_slow s) k1 st [0..<17] st)
                    (\<lambda>out. Inr (Some out, s\<lparr>ema_state := Some out\<rparr>))))"

section \<open>Embedding of the subject selection of \<open>posecare_main.py\<close>\<close>

text \<open>A bounding box \<open>(x1, y1, x2, y2)\<close>.\<close>

type_synonym box = "real \<times> real \<times> real \<times> real"

definition bbox_center_bonus :: "box \<Rightarrow> int \<Rightarrow> int \<Rightarrow> real" where
  "bbox_center_bonus xyxy W H =
     (case xyxy of (x1, y1, x2, y2) \<Rightarrow>
        let cx = 1 / 2 * (x1 + x2) / max 1 (real_of_int W);
            cy = 1 / 2 * (y1 + y2) / max 1 (real_of_int H);
            dx = cx - 1 / 2; dy = cy - 1 / 2;
            dist = sqrt (dx * dx + dy * dy)
        in max 0 (15 / 100 - dist))"

definition iou :: "box option \<Rightarrow> box option \<Rightarrow> real" where
  "iou a b =
     (case a of None \<Rightarrow> 0 | Some (ax1, ay1, ax2, ay2) \<Rightarrow>
      case b of None \<Rightarrow> 0 | Some (bx1, by1, bx2, by2) \<Rightarrow>
        let ix1 = max ax1 bx1; iy1 = max ay1 by1;
            ix2 = min ax2 bx2; iy2 = min ay2 by2;
            iw = max 0 (ix2 - ix1); ih = max 0 (iy2 - iy1);
            inter = iw * ih;
            areaA = max 0 ((ax2 - ax1) * (ay2 - ay1));
            areaB = max 0 ((bx2 - bx1) * (by2 - by1));
            denom = areaA + areaB - inter + 1 / 10 ^ 6
        in inter / denom)"

text \<open>\<open>np.nanmean\<close> of a row of confidences; the mean of an empty row is NaN, here \<open>None\<close>.\<close>

definition np_nanmean :: "real list \<Rightarrow> real option" where
  "np_nanmean xs = (if xs = [] then None else Some (sum_list xs / real (length xs)))"

text \<open>The score of one candidate; a NaN score compares false with everything.\<close>

definition score :: "real list \<Rightarrow> box \<Rightarrow> int \<Rightarrow> int \<Rightarrow> box option \<Rightarrow> real option" where
  "score c bb W H prev_bb =
     (case np_nanmean c of None \<Rightarrow> None
      | Some mean_conf \<Rightarrow>
          Some (mean_conf + bbox_center_bonus bb W H + 20 / 100 * iou prev_bb (Some bb)))"

definition score_gt :: "real option \<Rightarrow> real \<Rightarrow> bool" where
  "score_gt s best_s = (case s of None \<Rightarrow> False | Some v \<Rightarrow> v > best_s)"

text \<open>The result of the detector: \<open>res.keypoints\<close> with its \<open>xy\<close> and \<open>conf\<close>, one entry per
  detected person, and \<open>res.boxes.xyxy\<close>. \<open>len(res.keypoints)\<close> and \<open>kxy.shape[0]\<close> are the
  number of persons, the length of \<open>xy\<close>.\<close>

record Keypoints =
  xy :: "real list list list option"
  conf :: "real list list option"

record Results =
  keypoints :: "Keypoints option"
  boxes :: "box list option"

definition len_keypoints :: "Keypoints \<Rightarrow> nat" where
  "len_keypoints k = (case xy k of None \<Rightarrow> 0 | Some x \<Rightarrow> length x)"

fun pick_loop ::
  "real list list \<Rightarrow> box list \<Rightarrow> int \<Rightarrow> int \<Rightarrow> box option \<Rightarrow> nat list
     \<Rightarrow> nat option \<times> real \<Rightarrow> error + (nat option \<times> real)" where
  "pick_loop kconf bxs W H prev_bb [] best = Inr best"
| "pick_loop kconf bxs W H prev_bb (i # is) best =
     bind_err (getrow bxs i) (\<lambda>bb.
     bind_err (getrow kconf i) (\<lambda>c.
       pick_loop kconf bxs W H prev_bb is
         (if score_gt (score c bb W H prev_bb) (snd best)
          then (Some i, the (score c bb W H prev_bb)) else best)))"

definition pick_best_person ::
  "Results option \<Rightarrow> int \<Rightarrow> int \<Rightarrow> box option
     \<Rightarrow> error + (nat \<times> real list list \<times> real list \<times> box) option" where
  "pick_best_person res W H prev_bb =
     (case res of None \<Rightarrow> Inr None | Some r \<Rightarrow>
      case keypoints r of None \<Rightarrow> Inr None | Some kp \<Rightarrow>
        if len_keypoints kp = 0 then Inr None
        else
          (case xy kp of None \<Rightarrow> Inr None | Some kxy \<Rightarrow>
           case conf kp of None \<Rightarrow> Inr None | Some kconf \<Rightarrow>
           case boxes r of None \<Rightarrow> Inr None | Some bxs \<Rightarrow>
             bind_err (pick_loop kconf bxs W H prev_bb [0..<length kxy] (None, - (10 ^ 9)))
               (\<lambda>best.
                  case fst best of None \<Rightarrow> Inr None
                  | Some best_i \<Rightarrow>
                      bind_err (getrow kxy best_i) (\<lambda>k.
                      bind_err (getrow kconf best_i) (\<lambda>c.
                      bind_err (getrow bxs best_i) (\<lambda>b. Inr (Some (best_i, k, c, b))))))))"

section \<open>Vocabulary of the properties\<close>

text \<open>
  The predicates below name what the properties speak about: which frames carry a valid
  measurement, the conditions \<open>down\<close>, \<open>up\<close>, \<open>sit\<close> and \<open>stand\<close> of the logic functions on
  a frame, the common shape of the three hysteresis machines, and the trace of a run.
\<close>

definition valid_knees :: "real option \<times> real option \<Rightarrow> bool" where
  "valid_knees LR = (fst LR \<noteq> None \<and> snd LR \<noteq> None)"

definition valid_hips :: "real option \<times> real option \<Rightarrow> bool" where
  "valid_hips LR = (fst LR \<noteq> None \<or> snd LR \<noteq> None)"

definition both_below :: "real \<Rightarrow> real option \<times> real option \<Rightarrow> bool" where
  "both_below t LR = (case LR of (Some L, Some R) \<Rightarrow> L < t \<and> R < t | _ \<Rightarrow> False)"

definition both_above :: "real \<Rightarrow> real option \<times> real option \<Rightarrow> bool" where
  "both_above t LR = (case LR of (Some L, Some R) \<Rightarrow> L > t \<and> R > t | _ \<Rightarrow> False)"

definition hyst_step ::
  "string \<Rightarrow> string \<Rightarrow> bool \<Rightarrow> bool \<Rightarrow> bool \<Rightarrow> RepCounter \<Rightarrow> RepCounter" where
  "hyst_step A B cB cA cnt rc =
     (if state rc = '''' then rc\<lparr>state := A, dwell := 0\<rparr>
      else if state rc = A then
        (if cB \<and> dwell rc + 1 \<ge> MIN_DWELL
         then rc\<lparr>reps := (if cnt then reps rc + 1 else reps rc), state := B, dwell := 0\<rparr>
         else rc\<lparr>dwell := (if cB then dwell rc + 1 else 0)\<rparr>)
      else if state rc = B then
        (if cA \<and> dwell rc + 1 \<ge> MIN_DWELL
         then rc\<lparr>reps := (if cnt then reps rc else reps rc + 1), state := A, dwell := 0\<rparr>
         else rc\<lparr>dwell := (if cA then dwell rc + 1 else 0)\<rparr>)
      else rc)"

definition streak :: "('f \<Rightarrow> bool) \<Rightarrow> 'f list \<Rightarrow> int" where
  "streak c fs = int (length (takeWhile c (rev fs)))"

definition hyst_inv :: "string \<Rightarrow> string \<Rightarrow> ('f \<Rightarrow> bool) \<Rightarrow> ('f \<Rightarrow> bool) \<Rightarrow> 'f list \<Rightarrow> RepCounter \<Rightarrow> bool" where
  "hyst_inv A B cB cA vs rc =
     ((state rc = '''' \<or> state rc = A \<or> state rc = B)
      \<and> (state rc = '''' \<longrightarrow> dwell rc = 0)
      \<and> (state rc = A \<longrightarrow> 0 \<le> dwell rc \<and> dwell rc \<le> streak cB vs)
      \<and> (state rc = B \<longrightarrow> 0 \<le> dwell rc \<and> dwell rc \<le> streak cA vs))"

definition squat_down :: "real option \<times> real option \<Rightarrow> bool" where
  "squat_down LR = both_below SQUAT_DOWN_MAX LR"

definition squat_up :: "real option \<times> real option \<Rightarrow> bool" where
  "squat_up LR = both_above SQUAT_UP_MIN LR"

definition sts_sit :: "real option \<times> real option \<Rightarrow> bool" where
  "sts_sit LR = both_below STS_SIT_MAX LR"

definition sts_stand :: "real option \<times> real option \<Rightarrow> bool" where
  "sts_stand LR = both_above STS_STAND_MIN LR"

definition last_two_hold :: "('f \<Rightarrow> bool) \<Rightarrow> 'f list \<Rightarrow> bool" where
  "last_two_hold c vs = (case rev vs of b # a # _ \<Rightarrow> c a \<and> c b | _ \<Rightarrow> False)"

definition dwell_rule ::
  "('f \<Rightarrow> bool) \<Rightarrow> string \<Rightarrow> string \<Rightarrow> ('f \<Rightarrow> bool) \<Rightarrow> ('f \<Rightarrow> bool) \<Rightarrow>
     'f list \<Rightarrow> 'f \<Rightarrow> RepCounter \<Rightarrow> RepCounter \<Rightarrow> bool" where
  "dwell_rule valid A B cB cA frames f rc rc' =
     ((state rc = A \<and> state rc' \<noteq> A \<longrightarrow>
         state rc' = B \<and> valid f \<and> cB f \<and> last_two_hold cB (filter valid frames))
    \<and> (state rc = B \<and> state rc' \<noteq> B \<longrightarrow>
         state rc' = A \<and> valid f \<and> cA f \<and> last_two_hold cA (filter valid frames))
    \<and> (state rc = '''' \<and> state rc' \<noteq> '''' \<longrightarrow> state rc' = A \<and> reps rc' = reps rc)
    \<and> (state rc = '''' \<or> state rc = A \<or> state rc = B)
    \<and> (valid f \<and> \<not> (state rc = A \<and> cB f) \<and> \<not> (state rc = B \<and> cA f) \<longrightarrow> dwell rc' = 0))"

definition steady_up :: "RepCounter \<Rightarrow> bool" where
  "steady_up rc = ((state rc = '''' \<or> state rc = ''up'') \<and> dwell rc \<le> 0)"

fun trace_sts :: "(real option \<times> real option) list \<Rightarrow> RepCounter \<Rightarrow> RepCounter list" where
  "trace_sts [] rc = [rc]"
| "trace_sts (f # fs) rc = rc # trace_sts fs (logic_sts_angles f rc)"

definition sit_to_stand :: "RepCounter \<times> RepCounter \<Rightarrow> bool" where
  "sit_to_stand p = (state (fst p) = ''sit'' \<and> state (snd p) = ''stand'')"

definition count_sit_to_stand :: "RepCounter list \<Rightarrow> int" where
  "count_sit_to_stand tr = int (length (filter sit_to_stand (zip tr (tl tr))))"

section \<open>Example inputs\<close>

text \<open>A keypoint array in which every landmark is the sentinel.\<close>

definition no_pose :: "real list list" where
  "no_pose = [[-1,-1],[-1,-1],[-1,-1],[-1,-1],[-1,-1],[-1,-1],[-1,-1],[-1,-1],[-1,-1],
              [-1,-1],[-1,-1],[-1,-1],[-1,-1],[-1,-1],[-1,-1],[-1,-1],[-1,-1]]"

text \<open>A pose with every landmark at \<open>(10, 10)\<close>; the same pose with the nose at \<open>(0, 5)\<close>;
  confidences that are all 1; confidences that are 1 except for the nose.\<close>

definition pose10 :: "real list list" where
  "pose10 = [[10,10],[10,10],[10,10],[10,10],[10,10],[10,10],[10,10],[10,10],[10,10],
             [10,10],[10,10],[10,10],[10,10],[10,10],[10,10],[10,10],[10,10]]"

definition pose_edge :: "real list list" where
  "pose_edge = [[0,5],[10,10],[10,10],[10,10],[10,10],[10,10],[10,10],[10,10],[10,10],
                [10,10],[10,10],[10,10],[10,10],[10,10],[10,10],[10,10],[10,10]]"

definition conf_ok :: "real list" where
  "conf_ok = [1,1,1,1,1,1,1,1,1,1,1,1,1,1,1,1,1]"

definition conf_low0 :: "real list" where
  "conf_low0 = [0,1,1,1,1,1,1,1,1,1,1,1,1,1,1,1,1]"

text \<open>The stabilizer after a first update with \<open>pose10\<close>, and after one with \<open>pose_edge\<close>.\<close>

definition stab10 :: EMAStabilizer where
  "stab10 = EMAStabilizer_init\<lparr>ema_state := Some pose10\<rparr>"


section \<open>Vocabulary of the selection properties\<close>



text \<open>Two detections of equal confidence in a frame of 100 by 100: one box in the centre
  of the frame, away from the previous box, one at the edge, overlapping the previous box.\<close>

definition box_prev :: box where
  "box_prev = (10, 0, 30, 10)"


definition box_edge :: box where
  "box_edge = (10, 0, 30, 20)"



definition box_far :: box where
  "box_far = (70, 80, 90, 100)"

definition res_far_edge :: Results where
  "res_far_edge =
     \<lparr>keypoints = Some \<lparr>xy = Some [pose_edge, pose10], conf = Some [conf_ok, conf_ok]\<rparr>,
      boxes = Some [box_far, box_edge]\<rparr>"

lemmas thresholds = SQUAT_DOWN_MAX_def SQUAT_UP_MIN_def MIN_DWELL_def STS_SIT_MAX_def STS_STAND_MIN_def LR_UP_MAX_def LR_DOWN_MIN_def

lemma streak_snoc: "streak c (fs @ [f]) = (if c f then streak c fs + 1 else 0)"
  by (simp add: streak_def)

lemma streak_nonneg: "0 \<le> streak c fs"
  by (simp add: streak_def)

lemma streak_two:
  assumes "2 \<le> streak c fs"
  shows "\<exists>pre a b. fs = pre @ [a, b] \<and> c a \<and> c b"
proof (cases fs rule: rev_cases)
  case Nil
  with assms show ?thesis by (simp add: streak_def)
next
  case (snoc ys b)
  note outer = snoc
  show ?thesis
  proof (cases ys rule: rev_cases)
    case Nil
    with outer assms show ?thesis by (simp add: streak_def split: if_splits)
  next
    case (snoc pre a)
    with outer assms have "c b" "c a" by (auto simp: streak_def split: if_splits)
    with outer snoc show ?thesis by auto
  qed
qed

lemma hyst_inv_step:
  assumes "hyst_inv A B cB cA vs rc" "A \<noteq> ''''" "B \<noteq> ''''" "A \<noteq> B"
  shows "hyst_inv A B cB cA (vs @ [f]) ((hyst_step A B (cB f) (cA f) cnt rc)\<lparr>form_pct := q\<rparr>)"
  using assms streak_nonneg[of cB vs] streak_nonneg[of cA vs]
  by (auto simp: hyst_inv_def hyst_step_def streak_snoc MIN_DWELL_def)

lemma hyst_inv_run:
  assumes sv: "\<And>f rc. valid f \<Longrightarrow> step f rc = (hyst_step A B (cB f) (cA f) cnt rc)\<lparr>form_pct := q f\<rparr>"
    and si: "\<And>f rc. \<not> valid f \<Longrightarrow> step f rc = rc"
    and ne: "A \<noteq> ''''" "B \<noteq> ''''" "A \<noteq> B"
    and init: "state rc0 = ''''" "dwell rc0 = 0"
  shows "hyst_inv A B cB cA (filter valid frames) (foldl (\<lambda>r f. step f r) rc0 frames)"
proof (induction frames rule: rev_induct)
  case Nil
  then show ?case using init ne by (simp add: hyst_inv_def streak_def)
next
  case (snoc f frames)
  show ?case
  proof (cases "valid f")
    case True
    then show ?thesis using snoc hyst_inv_step[OF snoc ne, where f=f and cnt=cnt and q="q f"] sv by simp
  next
    case False
    then show ?thesis using snoc si by simp
  qed
qed

lemma hyst_transition:
  assumes inv: "hyst_inv A B cB cA vs rc" and ne: "A \<noteq> ''''" "B \<noteq> ''''" "A \<noteq> B"
    and rc': "rc' = (hyst_step A B (cB f) (cA f) cnt rc)\<lparr>form_pct := q\<rparr>"
  shows "(state rc = A \<and> state rc' \<noteq> A \<longrightarrow>
            state rc' = B \<and> cB f \<and> (\<exists>pre a b. vs = pre @ [a, b] \<and> cB a \<and> cB b))
       \<and> (state rc = B \<and> state rc' \<noteq> B \<longrightarrow>
            state rc' = A \<and> cA f \<and> (\<exists>pre a b. vs = pre @ [a, b] \<and> cA a \<and> cA b))
       \<and> (state rc = '''' \<longrightarrow> state rc' = A \<and> reps rc' = reps rc)
       \<and> (\<not> (state rc = A \<and> cB f) \<and> \<not> (state rc = B \<and> cA f) \<longrightarrow> dwell rc' = 0)"
proof -
  have a: "state rc = A \<and> state rc' \<noteq> A \<longrightarrow> state rc' = B \<and> cB f \<and> 2 \<le> streak cB vs"
    using inv ne unfolding rc' by (auto simp: hyst_inv_def hyst_step_def MIN_DWELL_def split: if_splits)
  have b: "state rc = B \<and> state rc' \<noteq> B \<longrightarrow> state rc' = A \<and> cA f \<and> 2 \<le> streak cA vs"
    using inv ne unfolding rc' by (auto simp: hyst_inv_def hyst_step_def MIN_DWELL_def split: if_splits)
  have c: "state rc = '''' \<longrightarrow> state rc' = A \<and> reps rc' = reps rc"
    unfolding rc' by (simp add: hyst_step_def)
  have d: "\<not> (state rc = A \<and> cB f) \<and> \<not> (state rc = B \<and> cA f) \<longrightarrow> dwell rc' = 0"
    using inv ne unfolding rc' by (auto simp: hyst_inv_def hyst_step_def MIN_DWELL_def split: if_splits)
  show ?thesis using a b c d streak_two[of cB vs] streak_two[of cA vs] by blast
qed

lemma last_two_hold_iff: "last_two_hold c vs \<longleftrightarrow> (\<exists>pre a b. vs = pre @ [a, b] \<and> c a \<and> c b)"
proof
  assume "last_two_hold c vs"
  then obtain b a r where r: "rev vs = b # a # r" and c: "c a" "c b"
    by (auto simp: last_two_hold_def split: list.splits)
  from r have "vs = rev r @ [a, b]" by (metis rev_rev_ident rev.simps append.assoc append_Cons append_Nil)
  with c show "\<exists>pre a b. vs = pre @ [a, b] \<and> c a \<and> c b" by blast
next
  assume "\<exists>pre a b. vs = pre @ [a, b] \<and> c a \<and> c b"
  then show "last_two_hold c vs" by (auto simp: last_two_hold_def)
qed

lemma hyst_dwell_rule:
  assumes sv: "\<And>f rc. valid f \<Longrightarrow> step f rc = (hyst_step A B (cB f) (cA f) cnt rc)\<lparr>form_pct := q f\<rparr>"
    and si: "\<And>f rc. \<not> valid f \<Longrightarrow> step f rc = rc"
    and ne: "A \<noteq> ''''" "B \<noteq> ''''" "A \<noteq> B"
    and init: "state rc0 = ''''" "dwell rc0 = 0"
  shows "dwell_rule valid A B cB cA frames f
           (foldl (\<lambda>r f. step f r) rc0 frames) (step f (foldl (\<lambda>r f. step f r) rc0 frames))"
proof -
  let ?rc = "foldl (\<lambda>r f. step f r) rc0 frames"
  have inv: "hyst_inv A B cB cA (filter valid frames) ?rc"
    by (rule hyst_inv_run[OF sv si ne init])
  have st: "state ?rc = '''' \<or> state ?rc = A \<or> state ?rc = B"
    using inv by (simp add: hyst_inv_def)
  show ?thesis
  proof (cases "valid f")
    case True
    then have eq: "step f ?rc = (hyst_step A B (cB f) (cA f) cnt ?rc)\<lparr>form_pct := q f\<rparr>"
      by (rule sv)
    show ?thesis
      using hyst_transition[OF inv ne eq] True st ne
      unfolding dwell_rule_def last_two_hold_iff by blast
  next
    case False
    then have "step f ?rc = ?rc" by (rule si)
    then show ?thesis using False st by (simp add: dwell_rule_def)
  qed
qed

lemma squat_step_valid:
  "valid_knees f \<Longrightarrow> logic_squat_angles f rc =
     (hyst_step ''up'' ''down'' (squat_down f) (squat_up f) False rc)
       \<lparr>form_pct := the (form_quality_squat_angles f)\<rparr>"
proof -
  assume "valid_knees f"
  then obtain L R where f: "f = (Some L, Some R)" by (cases f) (auto simp: valid_knees_def)
  show ?thesis unfolding f
    by (simp add: logic_squat_angles_def hyst_step_def squat_down_def squat_up_def both_below_def both_above_def form_quality_squat_angles_def Let_def)
qed

lemma squat_step_invalid: "\<not> valid_knees f \<Longrightarrow> logic_squat_angles f rc = rc"
  by (cases f) (auto simp: valid_knees_def logic_squat_angles_def split: option.splits)

lemma sts_step_valid:
  "valid_knees f \<Longrightarrow> logic_sts_angles f rc =
     (hyst_step ''sit'' ''stand'' (sts_stand f) (sts_sit f) True rc)
       \<lparr>form_pct := the (form_quality_sts_angles f)\<rparr>"
proof -
  assume "valid_knees f"
  then obtain L R where f: "f = (Some L, Some R)" by (cases f) (auto simp: valid_knees_def)
  show ?thesis unfolding f
    by (simp add: logic_sts_angles_def hyst_step_def sts_sit_def sts_stand_def both_below_def both_above_def form_quality_sts_angles_def Let_def)
qed

lemma sts_step_invalid: "\<not> valid_knees f \<Longrightarrow> logic_sts_angles f rc = rc"
  by (cases f) (auto simp: valid_knees_def logic_sts_angles_def split: option.splits)

lemma leg_quality_some: "valid_hips f \<Longrightarrow> \<exists>q. form_quality_legraise_angles f = Some q"
  by (cases f; cases "fst f"; cases "snd f")
     (simp_all add: valid_hips_def form_quality_legraise_angles_def)

lemma leg_step_valid:
  "valid_hips f \<Longrightarrow> logic_leg_raise_angles f rc =
     (hyst_step ''down'' ''up'' (leg_any_up f) (leg_both_down f) False rc)
       \<lparr>form_pct := the (form_quality_legraise_angles f)\<rparr>"
proof -
  assume v: "valid_hips f"
  then obtain q where q: "form_quality_legraise_angles f = Some q"
    using leg_quality_some by blast
  from v have nn: "\<not> (fst f = None \<and> snd f = None)" by (simp add: valid_hips_def)
  show ?thesis
    by (simp add: logic_leg_raise_angles_def hyst_step_def Let_def q nn)
qed

lemma leg_step_invalid: "\<not> valid_hips f \<Longrightarrow> logic_leg_raise_angles f rc = rc"
  by (simp add: valid_hips_def logic_leg_raise_angles_def)

lemma reset_state: "state (reset rc ex) = '''' \<and> dwell (reset rc ex) = 0 \<and> reps (reset rc ex) = 0"
  by (simp add: reset_def Let_def split: option.splits)

lemma squat_dwell_rule:
  "dwell_rule valid_knees ''up'' ''down'' squat_down squat_up frames f
     (run_squat frames (reset rc0 ex)) (logic_squat_angles f (run_squat frames (reset rc0 ex)))"
  unfolding run_squat_def
  by (rule hyst_dwell_rule[where step = logic_squat_angles, OF squat_step_valid squat_step_invalid])
     (simp_all add: reset_state)

lemma sts_dwell_rule:
  "dwell_rule valid_knees ''sit'' ''stand'' sts_stand sts_sit frames f
     (run_sts frames (reset rc0 ex)) (logic_sts_angles f (run_sts frames (reset rc0 ex)))"
  unfolding run_sts_def
  by (rule hyst_dwell_rule[where step = logic_sts_angles, OF sts_step_valid sts_step_invalid])
     (simp_all add: reset_state)

lemma leg_dwell_rule:
  "dwell_rule valid_hips ''down'' ''up'' leg_any_up leg_both_down frames f
     (run_leg_raise frames (reset rc0 ex)) (logic_leg_raise_angles f (run_leg_raise frames (reset rc0 ex)))"
  unfolding run_leg_raise_def
  by (rule hyst_dwell_rule[where step = logic_leg_raise_angles, OF leg_step_valid leg_step_invalid])
     (simp_all add: reset_state)

lemma squat_up_not_down: "squat_up f \<Longrightarrow> \<not> squat_down f"
  by (cases f) (auto simp: squat_up_def squat_down_def both_above_def both_below_def thresholds split: option.splits)

lemma squat_up_valid: "squat_up f \<Longrightarrow> valid_knees f"
  by (cases f) (auto simp: squat_up_def both_above_def valid_knees_def split: option.splits)

lemma squat_down_valid: "squat_down f \<Longrightarrow> valid_knees f"
  by (cases f) (auto simp: squat_down_def both_below_def valid_knees_def split: option.splits)

lemma squat_up_step:
  assumes "squat_up f" "state rc = '''' \<or> state rc = ''up''" "dwell rc \<le> 2"
  shows "steady_up (logic_squat_angles f rc) \<and> reps (logic_squat_angles f rc) = reps rc"
  using assms squat_up_not_down[OF assms(1)]
  by (auto simp: squat_step_valid[OF squat_up_valid[OF assms(1)]] hyst_step_def steady_up_def MIN_DWELL_def)

lemma squat_up_run:
  assumes "list_all squat_up fs" "state rc = '''' \<or> state rc = ''up''" "dwell rc \<le> 2"
  shows "(state (run_squat fs rc) = '''' \<or> state (run_squat fs rc) = ''up'')
         \<and> dwell (run_squat fs rc) \<le> 2 \<and> reps (run_squat fs rc) = reps rc"
  using assms
proof (induction fs arbitrary: rc)
  case Nil
  then show ?case by (simp add: run_squat_def)
next
  case (Cons f fs)
  from Cons.prems have f: "squat_up f" and fs: "list_all squat_up fs" by simp_all
  have s: "steady_up (logic_squat_angles f rc) \<and> reps (logic_squat_angles f rc) = reps rc"
    using squat_up_step[OF f Cons.prems(2,3)] .
  then have "(state (logic_squat_angles f rc) = '''' \<or> state (logic_squat_angles f rc) = ''up'')"
    "dwell (logic_squat_angles f rc) \<le> 2" by (auto simp: steady_up_def)
  from Cons.IH[OF fs this] s show ?case by (simp add: run_squat_def)
qed

lemma squat_down_step:
  assumes "squat_down f" "state rc = '''' \<or> state rc = ''up''" "dwell rc \<le> k" "0 \<le> k" "k \<le> 1"
  shows "state (logic_squat_angles f rc) = ''up'' \<and> dwell (logic_squat_angles f rc) \<le> k + 1
         \<and> reps (logic_squat_angles f rc) = reps rc"
  using assms
  by (auto simp: squat_step_valid[OF squat_down_valid[OF assms(1)]] hyst_step_def MIN_DWELL_def)

lemma run_squat_append: "run_squat (xs @ ys) rc = run_squat ys (run_squat xs rc)"
  by (simp add: run_squat_def)

lemma run_squat_Cons: "run_squat (f # fs) rc = run_squat fs (logic_squat_angles f rc)"
  by (simp add: run_squat_def)

lemma run_squat_Nil: "run_squat [] rc = rc"
  by (simp add: run_squat_def)

lemma squat_short_dip:
  assumes xs: "list_all squat_up xs" and d: "squat_down d1" "squat_down d2"
    and ys: "list_all squat_up ys"
  shows "reps (run_squat (xs @ [d1, d2] @ ys) (reset rc0 ex)) = 0"
proof -
  let ?r0 = "reset rc0 ex"
  let ?r1 = "run_squat xs ?r0"
  let ?r2 = "logic_squat_angles d1 ?r1"
  let ?r3 = "logic_squat_angles d2 ?r2"
  have i: "state ?r0 = '''' \<or> state ?r0 = ''up''" "dwell ?r0 \<le> 2" "reps ?r0 = 0"
    by (simp_all add: reset_state)
  have a: "(state ?r1 = '''' \<or> state ?r1 = ''up'') \<and> dwell ?r1 \<le> 2 \<and> reps ?r1 = reps ?r0"
    by (rule squat_up_run[OF xs i(1,2)])
  have a0: "dwell ?r1 \<le> 0"
  proof (cases xs rule: rev_cases)
    case Nil
    then show ?thesis by (simp add: run_squat_Nil reset_state)
  next
    case (snoc zs z)
    then have z: "squat_up z" and zs: "list_all squat_up zs" using xs by simp_all
    have p: "(state (run_squat zs ?r0) = '''' \<or> state (run_squat zs ?r0) = ''up'') \<and> dwell (run_squat zs ?r0) \<le> 2 \<and> reps (run_squat zs ?r0) = reps ?r0"
      by (rule squat_up_run[OF zs i(1,2)])
    have "steady_up (logic_squat_angles z (run_squat zs ?r0))"
      using squat_up_step[OF z] p by blast
    then show ?thesis unfolding snoc by (simp add: run_squat_append run_squat_Cons run_squat_Nil steady_up_def)
  qed
  have b: "state ?r2 = ''up'' \<and> dwell ?r2 \<le> 0 + 1 \<and> reps ?r2 = reps ?r1"
    using squat_down_step[OF d(1), of ?r1 0] a a0 by simp
  have c: "state ?r3 = ''up'' \<and> dwell ?r3 \<le> 1 + 1 \<and> reps ?r3 = reps ?r2"
    using squat_down_step[OF d(2), of ?r2 1] b by simp
  have e: "reps (run_squat ys ?r3) = reps ?r3"
    using squat_up_run[OF ys, of ?r3] c by simp
  show ?thesis
    using a b c e i(3) by (simp add: run_squat_append run_squat_Cons)
qed

lemma sts_step_reps:
  "reps (logic_sts_angles f rc) =
     reps rc + (if state rc = ''sit'' \<and> state (logic_sts_angles f rc) = ''stand'' then 1 else 0)"
proof (cases "valid_knees f")
  case True
  show ?thesis unfolding sts_step_valid[OF True] by (simp add: hyst_step_def)
next
  case False
  then show ?thesis by (simp add: sts_step_invalid)
qed

lemma trace_sts_hd: "\<exists>t. trace_sts fs rc = rc # t"
  by (cases fs) simp_all

lemma count_trace_Cons:
  "count_sit_to_stand (rc # trace_sts fs r) =
     (if sit_to_stand (rc, r) then 1 else 0) + count_sit_to_stand (trace_sts fs r)"
proof -
  obtain t where t: "trace_sts fs r = r # t"
    using trace_sts_hd by blast
  show ?thesis by (simp add: count_sit_to_stand_def t)
qed

lemma sts_run_reps:
  "reps (run_sts fs rc) = reps rc + count_sit_to_stand (trace_sts fs rc)"
proof (induction fs arbitrary: rc)
  case Nil
  then show ?case by (simp add: run_sts_def count_sit_to_stand_def)
next
  case (Cons f fs)
  have "run_sts (f # fs) rc = run_sts fs (logic_sts_angles f rc)" by (simp add: run_sts_def)
  then show ?case
    using Cons.IH[of "logic_sts_angles f rc"] sts_step_reps[of f rc]
    by (simp add: count_trace_Cons sit_to_stand_def)
qed

lemma trace_sts_last: "last (trace_sts fs rc) = run_sts fs rc"
proof (induction fs arbitrary: rc)
  case Nil
  then show ?case by (simp add: run_sts_def)
next
  case (Cons f fs)
  obtain t where t: "trace_sts fs (logic_sts_angles f rc) = logic_sts_angles f rc # t"
    using trace_sts_hd by blast
  have "last (trace_sts (f # fs) rc) = last (trace_sts fs (logic_sts_angles f rc))"
    by (simp add: t)
  then show ?case using Cons.IH[of "logic_sts_angles f rc"] by (simp add: run_sts_def)
qed

lemma py_round_of_int: "py_round (of_int n) = n"
  by (simp add: py_round_def)

lemma py_round_bounds: "\<lfloor>x\<rfloor> \<le> py_round x \<and> py_round x \<le> \<lfloor>x\<rfloor> + 1"
  by (simp add: py_round_def Let_def)

lemma py_round_mono:
  assumes "x \<le> y"
  shows "py_round x \<le> py_round y"
proof (cases "\<lfloor>x\<rfloor> = \<lfloor>y\<rfloor>")
  case True
  then show ?thesis using assms by (auto simp: py_round_def Let_def)
next
  case False
  then have "\<lfloor>x\<rfloor> < \<lfloor>y\<rfloor>" using assms floor_mono[OF assms] by linarith
  then show ?thesis using py_round_bounds[of x] py_round_bounds[of y] by linarith
qed

lemma knee_score_antimono: "a \<le> b \<Longrightarrow> knee_score b \<le> knee_score a"
  by (auto simp: knee_score_def clamp01_def max_def min_def divide_right_mono)

lemma squat_quality_antimono:
  assumes "a \<le> b"
  shows "\<exists>qa qb. form_quality_squat_angles (both a) = Some qa
          \<and> form_quality_squat_angles (both b) = Some qb \<and> qb \<le> qa"
proof -
  have "100 * (1 / 2 * (knee_score b + knee_score b)) \<le> 100 * (1 / 2 * (knee_score a + knee_score a))"
    using knee_score_antimono[OF assms] by simp
  then show ?thesis
    by (simp add: form_quality_squat_angles_def both_def py_round_mono)
qed

lemma squat_quality_90: "form_quality_squat_angles (both 90) = Some 100"
  using py_round_of_int[of 100]
  by (simp add: form_quality_squat_angles_def both_def knee_score_def clamp01_def)

lemma squat_quality_180: "form_quality_squat_angles (both 180) = Some 0"
  using py_round_of_int[of 0]
  by (simp add: form_quality_squat_angles_def both_def knee_score_def clamp01_def)

lemma logic_squat_skip:
  assumes "knee_angles kps = Inr (L, R)" "L = None \<or> R = None"
  shows "logic_squat kps rc = Inr rc"
proof -
  have "\<not> valid_knees (L, R)" using assms(2) by (auto simp: valid_knees_def)
  then show ?thesis
    by (simp add: logic_squat_def bind_err_def assms(1) squat_step_invalid)
qed

lemma logic_sts_skip:
  assumes "knee_angles kps = Inr (L, R)" "L = None \<or> R = None"
  shows "logic_sts kps rc = Inr rc"
proof -
  have "\<not> valid_knees (L, R)" using assms(2) by (auto simp: valid_knees_def)
  then show ?thesis
    by (simp add: logic_sts_def bind_err_def assms(1) sts_step_invalid)
qed

lemma logic_leg_raise_skip:
  assumes "hip_angle_side kps ''l'' = Inr None" "hip_angle_side kps ''r'' = Inr None"
  shows "logic_leg_raise kps rc = Inr rc"
  by (simp add: logic_leg_raise_def hip_angles_def bind_err_def assms logic_leg_raise_angles_def)

lemmas KP_defs = KP_lsh_def KP_rsh_def KP_lhip_def KP_rhip_def KP_lknee_def KP_rknee_def
  KP_lank_def KP_rank_def

lemma no_pose_knees: "knee_angles no_pose = Inr (None, None)"
  by (simp add: knee_angles_def no_pose_def getrow_def bind_err_def KP_defs angle_3pt_def valid_point_def)

lemma no_pose_hips: "hip_angle_side no_pose ''l'' = Inr None \<and> hip_angle_side no_pose ''r'' = Inr None"
  by (simp add: hip_angle_side_def no_pose_def getrow_def bind_err_def KP_defs angle_3pt_def valid_point_def)










lemma fold_update_length:
  "length (fold (\<lambda>i out. out[i := g i]) ixs out) = length out"
  by (induction ixs arbitrary: out) simp_all

lemma fold_update_nth:
  "j < length out \<Longrightarrow>
     fold (\<lambda>i out. out[i := g i]) ixs out ! j = (if j \<in> set ixs then g j else out ! j)"
proof (induction ixs arbitrary: out)
  case Nil
  then show ?case by simp
next
  case (Cons i ixs)
  have "j < length (out[i := g i])" using Cons.prems by simp
  from Cons.IH[OF this] Cons.prems show ?case by (auto simp: nth_list_update)
qed

lemma ema_loop_fold:
  "\<forall>i \<in> set ixs. i < length k \<and> i < length st \<Longrightarrow>
     ema_loop af as k st ixs out =
       Inr (fold (\<lambda>i out. out[i := ema_joint af as (k ! i) (st ! i)]) ixs out)"
  by (induction ixs arbitrary: out) simp_all

lemma ema_loop_17:
  assumes "length k = 17" "length st = 17"
  shows "\<exists>out. ema_loop af as k st [0..<17] st = Inr out \<and> length out = 17
           \<and> (\<forall>j < 17. out ! j = ema_joint af as (k ! j) (st ! j))"
proof -
  let ?out = "fold (\<lambda>i out. out[i := ema_joint af as (k ! i) (st ! i)]) [0..<17] st"
  have "ema_loop af as k st [0..<17] st = Inr ?out"
    by (rule ema_loop_fold) (simp add: assms)
  moreover have "length ?out = 17" by (simp add: fold_update_length assms)
  moreover have "\<forall>j < 17. ?out ! j = ema_joint af as (k ! j) (st ! j)"
    using fold_update_nth[where out = st and g = "\<lambda>i. ema_joint af as (k ! i) (st ! i)" and ixs = "[0..<17]"]
    by (simp add: assms)
  ultimately show ?thesis by blast
qed

lemma ema_loop_17_map:
  assumes "length k = 17" "length st = 17"
  shows "ema_loop af as k st [0..<17] st = Inr (map2 (ema_joint af as) k st)"
proof -
  obtain out where o: "ema_loop af as k st [0..<17] st = Inr out" "length out = 17"
    "\<forall>j < 17. out ! j = ema_joint af as (k ! j) (st ! j)"
    using ema_loop_17[OF assms] by blast
  have "out = map2 (ema_joint af as) k st"
    by (rule nth_equalityI) (simp_all add: o assms)
  with o(1) show ?thesis by simp
qed

lemma mask_low_length: "length k = length c \<Longrightarrow> length (mask_low k c) = length k"
  by (simp add: mask_low_def)

lemma mask_low_nth:
  "length k = length c \<Longrightarrow> i < length k \<Longrightarrow>
     mask_low k c ! i = (if c ! i \<ge> KEYPT_MIN_CONF then k ! i else map (\<lambda>_. - 1) (k ! i))"
  by (simp add: mask_low_def)


lemma ema_joint_invalid:
  "cur ! 0 \<le> 0 \<or> cur ! 1 \<le> 0 \<Longrightarrow> ema_joint af as cur prev = sentinel"
  by (simp add: ema_joint_def)

lemma ema_joint_recover:
  "0 < cur ! 0 \<Longrightarrow> 0 < cur ! 1 \<Longrightarrow> ema_joint af as cur sentinel = cur"
  by (simp add: ema_joint_def sentinel_def)

lemma ema_joint_same:
  assumes "length r = 2" "0 < r ! 0" "0 < r ! 1"
  shows "ema_joint af as r r = r"
proof -
  obtain x y where r: "r = [x, y]"
    using assms(1) by (cases r; cases "tl r") auto
  have "linalg_norm (vsub r r) = 0" by (simp add: r vsub_def linalg_norm_def)
  then show ?thesis using assms(2,3)
    by (simp add: ema_joint_def Let_def) (simp add: r vadd_def vscale_def algebra_simps)
qed

lemma update_non_first:
  assumes st: "ema_state s = Some st" "length st = 17"
    and k: "shape_17_2 k" and c: "length c = 17"
  shows "\<exists>out. update s (Some k) (Some c) = Inr (Some out, s\<lparr>ema_state := Some out\<rparr>)
           \<and> length out = 17
           \<and> (\<forall>j < 17. out ! j = ema_joint (alpha_fast s) (alpha_slow s) (mask_low k c ! j) (st ! j))"
proof -
  have lk: "length k = 17" using k by (simp add: shape_17_2_def)
  have lm: "length (mask_low k c) = 17" using lk c by (simp add: mask_low_length)
  obtain out where o: "ema_loop (alpha_fast s) (alpha_slow s) (mask_low k c) st [0..<17] st = Inr out"
    "length out = 17"
    "\<forall>j < 17. out ! j = ema_joint (alpha_fast s) (alpha_slow s) (mask_low k c ! j) (st ! j)"
    using ema_loop_17[OF lm st(2)] by blast
  have "update s (Some k) (Some c) = Inr (Some out, s\<lparr>ema_state := Some out\<rparr>)"
    using k lk c st(1) o(1) by (simp add: update_def bind_err_def Let_def)
  with o show ?thesis by blast
qed


lemma masked_invalid:
  assumes "shape_17_2 k" "length c = 17" "i < 17"
    and "c ! i < KEYPT_MIN_CONF \<or> k ! i ! 0 \<le> 0 \<or> k ! i ! 1 \<le> 0"
  shows "mask_low k c ! i ! 0 \<le> 0 \<or> mask_low k c ! i ! 1 \<le> 0"
proof -
  have lk: "length k = 17" and row: "length (k ! i) = 2"
    using assms(1,3) by (simp_all add: shape_17_2_def list_all_length)
  show ?thesis
    using assms(3,4) row by (auto simp: mask_low_nth lk assms(2))
qed

lemma update_writes_sentinel:
  assumes st: "ema_state s = Some st" "length st = 17"
    and k: "shape_17_2 k" and c: "length c = 17" and i: "i < 17"
    and inv: "c ! i < KEYPT_MIN_CONF \<or> k ! i ! 0 \<le> 0 \<or> k ! i ! 1 \<le> 0"
  shows "\<exists>out. update s (Some k) (Some c) = Inr (Some out, s\<lparr>ema_state := Some out\<rparr>)
           \<and> length out = 17 \<and> out ! i = sentinel"
proof -
  obtain out where o: "update s (Some k) (Some c) = Inr (Some out, s\<lparr>ema_state := Some out\<rparr>)"
    "length out = 17"
    "\<forall>j < 17. out ! j = ema_joint (alpha_fast s) (alpha_slow s) (mask_low k c ! j) (st ! j)"
    using update_non_first[OF st k c] by blast
  have "out ! i = sentinel"
    using o(3) i masked_invalid[OF k c i inv] by (simp add: ema_joint_invalid)
  with o show ?thesis by blast
qed


lemma ema_joint_10: "ema_joint af as [10, 10] [10, 10] = [10, 10]"
  by (rule ema_joint_same) simp_all

lemma update_first_pose10:
  "update EMAStabilizer_init (Some pose10) (Some conf_ok) = Inr (Some pose10, stab10)"
  by (simp add: update_def EMAStabilizer_init_def shape_17_2_def pose10_def conf_ok_def
      mask_low_def KEYPT_MIN_CONF_def stab10_def Let_def)

lemma update_low0_pose10:
  "update stab10 (Some pose10) (Some conf_low0)
     = Inr (Some (sentinel # tl pose10), stab10\<lparr>ema_state := Some (sentinel # tl pose10)\<rparr>)"
proof -
  have m: "mask_low pose10 conf_low0 = [- 1, - 1] # tl pose10"
    by (simp add: mask_low_def pose10_def conf_low0_def KEYPT_MIN_CONF_def)
  have l: "length ([- 1, - 1] # tl pose10) = 17" "length pose10 = 17"
    by (simp_all add: pose10_def)
  have j: "map2 (ema_joint (alpha_fast stab10) (alpha_slow stab10)) ([- 1, - 1] # tl pose10) pose10
             = sentinel # tl pose10"
    by (simp add: pose10_def ema_joint_10 ema_joint_invalid)
  have s: "shape_17_2 pose10" "length conf_low0 = 17" "ema_state stab10 = Some pose10"
    by (simp_all add: shape_17_2_def pose10_def conf_low0_def stab10_def)
  show ?thesis
    using s l by (simp add: update_def Let_def m ema_loop_17_map j bind_err_def)
qed









lemma nanmean_conf_ok: "np_nanmean conf_ok = Some 1"
  by (simp add: np_nanmean_def conf_ok_def)

lemma sqrt_quarter: "sqrt (1 / 4) = 1 / 2"
  by (simp add: real_sqrt_divide)


lemma bonus_edge: "bbox_center_bonus box_edge 100 100 = 0"
proof -
  have "sqrt ((1 / 2 * (10 + 30) / 100 - 1 / 2) * (1 / 2 * (10 + 30) / 100 - 1 / 2)
          + (1 / 2 * (0 + 20) / 100 - 1 / 2) * (1 / 2 * (0 + 20) / 100 - 1 / 2)) = (1 / 2 :: real)"
    using sqrt_quarter by simp
  then show ?thesis by (simp add: bbox_center_bonus_def box_edge_def Let_def)
qed


lemma iou_edge: "iou (Some box_prev) (Some box_edge) = 200 / (400 + 1 / 10 ^ 6)"
  by (simp add: iou_def box_prev_def box_edge_def Let_def)


lemma score_edge:
  "score conf_ok box_edge 100 100 (Some box_prev) = Some (1 + 20 / 100 * (200 / (400 + 1 / 10 ^ 6)))"
  by (simp add: score_def nanmean_conf_ok bonus_edge iou_edge)


lemma bonus_far: "bbox_center_bonus box_far 100 100 = 0"
proof -
  have "sqrt ((1 / 2 * (70 + 90) / 100 - 1 / 2) * (1 / 2 * (70 + 90) / 100 - 1 / 2)
          + (1 / 2 * (80 + 100) / 100 - 1 / 2) * (1 / 2 * (80 + 100) / 100 - 1 / 2)) = (1 / 2 :: real)"
    using sqrt_quarter by simp
  then show ?thesis by (simp add: bbox_center_bonus_def box_far_def Let_def)
qed

lemma iou_far: "iou (Some box_prev) (Some box_far) = 0"
  by (simp add: iou_def box_prev_def box_far_def Let_def)

lemma score_far: "score conf_ok box_far 100 100 (Some box_prev) = Some 1"
  by (simp add: score_def nanmean_conf_ok bonus_far iou_far)


lemma pick_res_far_edge:
  "pick_best_person (Some res_far_edge) 100 100 (Some box_prev)
     = Inr (Some (1, pose10, conf_ok, box_edge))"
proof -
  have l: "[0..<length [pose_edge, pose10]] = [0, 1]" by (simp add: upt_rec)
  show ?thesis
    unfolding pick_best_person_def res_far_edge_def
    by (simp add: len_keypoints_def l getrow_def bind_err_def score_far score_edge score_gt_def)
qed




section \<open>Properties of the exercise state machines\<close>

text \<open>
  C1. From a freshly reset counter, the squat machine fed the knee angles
  170, 170, 170, 100, 100, 100, 170, 170, 170 (both legs equal) counts exactly one rep and
  ends in phase \<open>up\<close>. The first valid frame, whatever its angles, only assigns the phase
  \<open>up\<close> with dwell 0 and awards no rep.
\<close>

theorem C1_squat_one_rep:
  "reps (run_squat (map both [170, 170, 170, 100, 100, 100, 170, 170, 170]) (reset rc ex)) = 1
   \<and> state (run_squat (map both [170, 170, 170, 100, 100, 100, 170, 170, 170]) (reset rc ex)) = ''up''
   \<and> state (logic_squat_angles (Some L, Some R) (reset rc ex)) = ''up''
   \<and> dwell (logic_squat_angles (Some L, Some R) (reset rc ex)) = 0
   \<and> reps (logic_squat_angles (Some L, Some R) (reset rc ex)) = 0"
proof -
  obtain r where r: "reset rc ex = r" "state r = ''''" "dwell r = 0" "reps r = 0"
    using reset_state by blast
  show ?thesis unfolding r(1)
    using r(2-4)
    by (simp add: run_squat_def logic_squat_angles_def both_def thresholds
        form_quality_squat_angles_def Let_def)
qed

text \<open>
  C2. In a run of any of the three machines from a reset counter, over any sequence of
  frames: when a call changes the phase from one of the two phases to the other, the
  frame of that call and the two valid frames before it all satisfy the condition of that
  change (three consecutive valid frames); and a valid frame on which the condition for
  leaving the current phase fails leaves dwell at 0. On the squat machine, frames with
  both knees above 165, then two frames with both knees below 120, then frames with both
  knees above 165 again count no rep.
\<close>

theorem C2_dwell_threshold:
  "dwell_rule valid_knees ''up'' ''down'' squat_down squat_up frames f
     (run_squat frames (reset rc0 ex))
     (logic_squat_angles f (run_squat frames (reset rc0 ex)))
   \<and> dwell_rule valid_knees ''sit'' ''stand'' sts_stand sts_sit frames f
     (run_sts frames (reset rc0 ex))
     (logic_sts_angles f (run_sts frames (reset rc0 ex)))
   \<and> dwell_rule valid_hips ''down'' ''up'' leg_any_up leg_both_down frames f
     (run_leg_raise frames (reset rc0 ex))
     (logic_leg_raise_angles f (run_leg_raise frames (reset rc0 ex)))
   \<and> (list_all squat_up xs \<and> squat_down d1 \<and> squat_down d2 \<and> list_all squat_up ys
        \<longrightarrow> reps (run_squat (xs @ [d1, d2] @ ys) (reset rc0 ex)) = 0)"
  using squat_dwell_rule sts_dwell_rule leg_dwell_rule squat_short_dip by blast

theorem C2_dwell_threshold_witness:
  "state (run_squat (map both [170, 100, 100]) (reset RepCounter_init None)) = ''up''
   \<and> state (logic_squat_angles (both 100)
        (run_squat (map both [170, 100, 100]) (reset RepCounter_init None))) = ''down''
   \<and> valid_knees (both 100) \<and> squat_down (both 100)
   \<and> last_two_hold squat_down (filter valid_knees (map both [170, 100, 100]))
   \<and> list_all squat_up [both 170] \<and> list_all squat_up [both 170, both 170]
   \<and> reps (run_squat ([both 170] @ [both 100, both 100] @ [both 170, both 170])
        (reset RepCounter_init None)) = 0"
  using C2_dwell_threshold [of "map both [170, 100, 100]" "both 100" RepCounter_init None
      "[both 170]" "both 100" "both 100" "[both 170, both 170]"]
  by (simp add: run_squat_def reset_def RepCounter_init_def logic_squat_angles_def both_def
      thresholds form_quality_squat_angles_def Let_def valid_knees_def squat_down_def
      squat_up_def both_below_def both_above_def last_two_hold_def)

text \<open>
  C3. A frame without a valid measurement changes nothing: when a knee angle is absent,
  \<open>logic_squat\<close> and \<open>logic_sts\<close> return the counter they were given, and so does
  \<open>logic_leg_raise\<close> when both hip angles are absent; rep count, phase, dwell and form
  percentage are all as before the call.
\<close>

theorem C3_no_measurement_no_mutation:
  "(knee_angles kps = Inr (L, R) \<and> (L = None \<or> R = None)
      \<longrightarrow> logic_squat kps rc = Inr rc \<and> logic_sts kps rc = Inr rc)
   \<and> (hip_angle_side kps ''l'' = Inr None \<and> hip_angle_side kps ''r'' = Inr None
      \<longrightarrow> logic_leg_raise kps rc = Inr rc)"
  using logic_squat_skip logic_sts_skip logic_leg_raise_skip by blast

theorem C3_no_measurement_no_mutation_witness:
  "knee_angles no_pose = Inr (None, None)
   \<and> hip_angle_side no_pose ''l'' = Inr None \<and> hip_angle_side no_pose ''r'' = Inr None
   \<and> logic_squat no_pose RepCounter_init = Inr RepCounter_init
   \<and> logic_sts no_pose RepCounter_init = Inr RepCounter_init
   \<and> logic_leg_raise no_pose RepCounter_init = Inr RepCounter_init"
  using C3_no_measurement_no_mutation [of no_pose None None RepCounter_init]
    no_pose_knees no_pose_hips
  by simp

text \<open>
  C8. The sit-to-stand machine adds one rep exactly on a call that takes the phase from
  \<open>sit\<close> to \<open>stand\<close> and adds nothing on any other call; over any sequence of frames the
  rep count grows by the number of sit-to-stand transitions in the trace of the run.
\<close>

theorem C8_sts_counts_sit_to_stand:
  "reps (logic_sts_angles f rc) =
     reps rc + (if state rc = ''sit'' \<and> state (logic_sts_angles f rc) = ''stand'' then 1 else 0)
   \<and> last (trace_sts fs rc) = run_sts fs rc
   \<and> reps (run_sts fs rc) = reps rc + count_sit_to_stand (trace_sts fs rc)"
  using sts_step_reps [of f rc] trace_sts_last [of fs rc] sts_run_reps [of fs rc] by simp

theorem C8_sts_counts_sit_to_stand_witness:
  "count_sit_to_stand
     (trace_sts (map both [100, 170, 170, 170, 100, 100, 100]) (reset RepCounter_init None)) = 1
   \<and> reps (run_sts (map both [100, 170, 170, 170, 100, 100, 100]) (reset RepCounter_init None)) = 1
   \<and> state (run_sts (map both [100, 170, 170, 170, 100, 100, 100]) (reset RepCounter_init None))
        = ''sit''"
  using C8_sts_counts_sit_to_stand [of "both 100" "reset RepCounter_init None"
      "map both [100, 170, 170, 170, 100, 100, 100]"]
  by (simp add: run_sts_def reset_def RepCounter_init_def logic_sts_angles_def both_def
      thresholds form_quality_sts_angles_def Let_def)

text \<open>
  C9. With both knee angles equal to \<open>a\<close>, the squat quality is 100 at 90 degrees and 0 at
  180 degrees, and it does not increase when the angle increases.
\<close>

theorem C9_squat_quality:
  "form_quality_squat_angles (both 90) = Some 100
   \<and> form_quality_squat_angles (both 180) = Some 0
   \<and> (a \<le> b \<longrightarrow>
        (\<exists>qa qb. form_quality_squat_angles (both a) = Some qa
           \<and> form_quality_squat_angles (both b) = Some qb \<and> qb \<le> qa))"
  using squat_quality_90 squat_quality_180 squat_quality_antimono by blast

theorem C9_squat_quality_witness:
  "(135::real) \<le> 180
   \<and> form_quality_squat_angles (both 135) = Some 50
   \<and> form_quality_squat_angles (both 180) = Some 0"
proof -
  have "form_quality_squat_angles (both 135) = Some 50"
    using py_round_of_int [of 50]
    by (simp add: form_quality_squat_angles_def both_def knee_score_def clamp01_def)
  then show ?thesis using C9_squat_quality [of 135 180] by simp
qed

section \<open>Properties of the angle engine\<close>




section \<open>Properties of the keypoint stabilizer\<close>

text \<open>
  C5, as stated, fails: after a first update with \<open>pose10\<close> the stored nose is \<open>(10, 10)\<close>;
  a second update in which the confidence of the nose is 0 returns the sentinel for the
  nose and stores that array, so the stored nose is the sentinel and no longer \<open>(10, 10)\<close>.
\<close>

theorem C5_state_overwritten_counterexample:
  "update EMAStabilizer_init (Some pose10) (Some conf_ok) = Inr (Some pose10, stab10)
   \<and> ema_state stab10 = Some pose10 \<and> pose10 ! 0 = [10, 10]
   \<and> conf_low0 ! 0 < KEYPT_MIN_CONF
   \<and> update stab10 (Some pose10) (Some conf_low0)
        = Inr (Some (sentinel # tl pose10), stab10\<lparr>ema_state := Some (sentinel # tl pose10)\<rparr>)
   \<and> (sentinel # tl pose10) ! 0 \<noteq> pose10 ! 0"
  using update_first_pose10 update_low0_pose10
  by (simp add: stab10_def pose10_def conf_low0_def KEYPT_MIN_CONF_def sentinel_def)

text \<open>
  C5, amended. On a non-first update, a joint whose masked value is invalid (confidence
  below 0.35 or a coordinate that is not positive) gets the sentinel in the output, and
  the output array becomes the stored state: the stored value of that joint is the
  sentinel. On the next call a valid value for that joint is therefore adopted as it is.
\<close>

theorem C5_invalid_joint_written_through:
  assumes "ema_state s = Some st" and "length st = 17"
    and "shape_17_2 k" and "length c = 17" and "i < 17"
    and "c ! i < KEYPT_MIN_CONF \<or> k ! i ! 0 \<le> 0 \<or> k ! i ! 1 \<le> 0"
  shows "\<exists>out. update s (Some k) (Some c) = Inr (Some out, s\<lparr>ema_state := Some out\<rparr>)
           \<and> out ! i = sentinel
           \<and> (\<forall>k2 c2. shape_17_2 k2 \<and> length c2 = 17 \<and> c2 ! i \<ge> KEYPT_MIN_CONF
                  \<and> 0 < k2 ! i ! 0 \<and> 0 < k2 ! i ! 1
                \<longrightarrow> (\<exists>out2. update (s\<lparr>ema_state := Some out\<rparr>) (Some k2) (Some c2)
                              = Inr (Some out2, s\<lparr>ema_state := Some out2\<rparr>)
                           \<and> out2 ! i = k2 ! i))"
proof -
  obtain out where o: "update s (Some k) (Some c) = Inr (Some out, s\<lparr>ema_state := Some out\<rparr>)"
    "length out = 17" "out ! i = sentinel"
    using update_writes_sentinel [OF assms] by blast
  have "\<exists>out2. update (s\<lparr>ema_state := Some out\<rparr>) (Some k2) (Some c2)
                 = Inr (Some out2, s\<lparr>ema_state := Some out2\<rparr>) \<and> out2 ! i = k2 ! i"
    if h: "shape_17_2 k2 \<and> length c2 = 17 \<and> c2 ! i \<ge> KEYPT_MIN_CONF
             \<and> 0 < k2 ! i ! 0 \<and> 0 < k2 ! i ! 1" for k2 c2
  proof -
    let ?s1 = "s\<lparr>ema_state := Some out\<rparr>"
    have lk: "length k2 = 17" using h by (simp add: shape_17_2_def)
    obtain out2 where o2:
      "update ?s1 (Some k2) (Some c2) = Inr (Some out2, ?s1\<lparr>ema_state := Some out2\<rparr>)"
      "\<forall>j < 17. out2 ! j = ema_joint (alpha_fast ?s1) (alpha_slow ?s1) (mask_low k2 c2 ! j) (out ! j)"
      using update_non_first [of ?s1 out k2 c2] o(2) h by auto
    have "mask_low k2 c2 ! i = k2 ! i"
      using h lk assms(5) by (simp add: mask_low_nth)
    then have "out2 ! i = k2 ! i"
      using o2(2) assms(5) o(3) h by (simp add: ema_joint_recover)
    with o2(1) show ?thesis by simp
  qed
  with o show ?thesis by blast
qed

theorem C5_invalid_joint_written_through_witness:
  "ema_state stab10 = Some pose10 \<and> length pose10 = 17 \<and> shape_17_2 pose10
   \<and> length conf_low0 = 17 \<and> (0::nat) < 17 \<and> conf_low0 ! 0 < KEYPT_MIN_CONF
   \<and> (\<exists>out. update stab10 (Some pose10) (Some conf_low0)
               = Inr (Some out, stab10\<lparr>ema_state := Some out\<rparr>)
            \<and> out ! 0 = sentinel)"
proof -
  have h: "ema_state stab10 = Some pose10" "length pose10 = 17" "shape_17_2 pose10"
    "length conf_low0 = 17" "(0::nat) < 17"
    "conf_low0 ! 0 < KEYPT_MIN_CONF \<or> pose10 ! 0 ! 0 \<le> 0 \<or> pose10 ! 0 ! 1 \<le> 0"
    by (simp_all add: stab10_def pose10_def conf_low0_def shape_17_2_def KEYPT_MIN_CONF_def)
  have "conf_low0 ! 0 < KEYPT_MIN_CONF" by (simp add: conf_low0_def KEYPT_MIN_CONF_def)
  then show ?thesis
    using C5_invalid_joint_written_through [OF h] h(1-5) by blast
qed




section \<open>Properties of the subject selector\<close>






end
